theory Spec2Isabelle
  imports Complex_Main "HOL-Library.Word"
begin

section \<open>The QXW protocol of the Fairbuds web client\<close>

text \<open>
  A shallow embedding of the web client \<^verbatim>\<open>web/fairbuds.js\<close>: the gain encoding, the packet
  builder, the custom-EQ payload, the notification handler and the device-info parser.
  A \<^verbatim>\<open>Uint8Array\<close> is a list of 8-bit words; a store into it keeps the value modulo 256.
  A JavaScript number is an IEEE double: a finite one is modelled by the real it denotes,
  and a product, a quotient or a difference of two numbers is the exact result rounded to
  the nearest double. \<^verbatim>\<open>Math.round\<close> takes the nearest integer, a tie going towards plus
  infinity.
\<close>

type_synonym byte = "8 word"

subsection \<open>Protocol constants\<close>

definition QXW_PREFIX :: "byte list" where
  "QXW_PREFIX = [0x51, 0x58, 0x57]"

definition CMD_SELECT_EQ :: byte where
  "CMD_SELECT_EQ = 0x10"

definition CMD_CUSTOM_EQ :: byte where
  "CMD_CUSTOM_EQ = 0x20"

definition CMD_DEVICE_INFO :: byte where
  "CMD_DEVICE_INFO = 0x27"

definition TYPE_REQUEST :: byte where
  "TYPE_REQUEST = 0x01"

definition TYPE_NOTIFY :: byte where
  "TYPE_NOTIFY = 0x03"

definition GAIN_OFFSET :: int where
  "GAIN_OFFSET = 120"

definition GAIN_SCALE :: int where
  "GAIN_SCALE = 10"

definition DEFAULT_Q :: int where
  "DEFAULT_Q = 7"

definition NUM_BANDS :: nat where
  "NUM_BANDS = 8"

subsection \<open>Numbers\<close>

text \<open>
  The doubles are the reals with a significand of 53 bits. \<open>double_of\<close> rounds a real to
  the nearest of them, a tie going to the even significand, as the arithmetic of the
  language does after every operation. The range of the exponent is not modelled: where a
  product overflows to an infinity, \<^verbatim>\<open>encodeGain\<close> clamps it to 255 or 0 as it clamps the
  huge product here, and a product that underflows is rounded to 0 by \<^verbatim>\<open>Math.round\<close>
  either way; the quotient in \<^verbatim>\<open>decodeGain\<close> neither overflows nor underflows. The sum
  \<^verbatim>\<open>Math.round(...) + GAIN_OFFSET\<close> is exact below \<open>2 ^ 53\<close> and is clamped to 255 or 0 beyond.
  \<^verbatim>\<open>NaN\<close> and the infinities are not values of the model.
\<close>

fun bit_length :: "nat \<Rightarrow> nat" where
  \<comment> \<open>the number of binary digits\<close>
  "bit_length n = (if n = 0 then 0 else Suc (bit_length (n div 2)))"

definition binade :: "real \<Rightarrow> int" where
  \<comment> \<open>the exponent \<open>e\<close> with \<open>2 ^ e \<le> \<bar>x\<bar> < 2 ^ (e + 1)\<close>, for \<open>x\<close> other than 0\<close>
  "binade x =
     (if 1 \<le> \<bar>x\<bar> then int (bit_length (nat \<lfloor>\<bar>x\<bar>\<rfloor>)) - 1
      else - int (bit_length (nat (\<lceil>1 / \<bar>x\<bar>\<rceil> - 1))))"

definition roundTiesToEven :: "real \<Rightarrow> int" where
  \<comment> \<open>the nearest integer, a tie going to the even one\<close>
  "roundTiesToEven y =
     (let f = \<lfloor>y\<rfloor>; d = y - real_of_int f
      in if d < 1 / 2 then f else if 1 / 2 < d then f + 1 else if even f then f else f + 1)"

definition double_of :: "real \<Rightarrow> real" where
  \<comment> \<open>the nearest double: a multiple of \<open>2 ^ (e - 52)\<close> in the binade \<open>e\<close> of \<open>x\<close>\<close>
  "double_of x =
     (if x = 0 then 0
      else (let q = 2 powi (binade x - 52) in real_of_int (roundTiesToEven (x / q)) * q))"

subsection \<open>Gain encoding\<close>

definition Math_round :: "real \<Rightarrow> int" where
  \<comment> \<open>\<^verbatim>\<open>Math.round\<close>: the nearest integer, a tie going up.\<close>
  "Math_round x = \<lfloor>x + 1 / 2\<rfloor>"

definition encodeGain :: "real \<Rightarrow> int" where
  "encodeGain db =
     (let encoded = Math_round (double_of (db * real_of_int GAIN_SCALE)) + GAIN_OFFSET
      in max 0 (min 255 encoded))"

definition decodeGain :: "int \<Rightarrow> real" where
  "decodeGain byteVal =
     double_of (double_of (real_of_int byteVal - real_of_int GAIN_OFFSET)
                / real_of_int GAIN_SCALE)"

subsection \<open>Packet builder\<close>

definition new_Uint8Array :: "nat \<Rightarrow> byte list" where
  \<comment> \<open>\<^verbatim>\<open>new Uint8Array(n)\<close>: n zero bytes.\<close>
  "new_Uint8Array n = replicate n 0"

definition typed_set :: "byte list \<Rightarrow> byte list \<Rightarrow> nat \<Rightarrow> byte list" where
  \<comment> \<open>\<^verbatim>\<open>buf.set(src, off)\<close> where the source fits, which is how \<^verbatim>\<open>buildPacket\<close> sizes
      the buffer: the bytes of \<open>src\<close> overwrite \<open>buf\<close> from offset \<open>off\<close>.\<close>
  "typed_set buf src off = take off buf @ src @ drop (off + length src) buf"

definition buildPacket :: "byte \<Rightarrow> byte \<Rightarrow> byte list option \<Rightarrow> byte list" where
  \<comment> \<open>The payload is \<^verbatim>\<open>null\<close> (\<open>None\<close>) or a byte array; there is no check of its length,
      and the length byte is the length modulo 256.\<close>
  "buildPacket cmd type payload =
     (let pLen = (case payload of None \<Rightarrow> 0 | Some p \<Rightarrow> length p);
          buf = new_Uint8Array (3 + 1 + 1 + 1 + pLen);
          buf = buf[0 := QXW_PREFIX ! 0];
          buf = buf[1 := QXW_PREFIX ! 1];
          buf = buf[2 := QXW_PREFIX ! 2];
          buf = buf[3 := cmd];
          buf = buf[4 := type];
          buf = buf[5 := of_nat pLen]
      in (case payload of None \<Rightarrow> buf | Some p \<Rightarrow> typed_set buf p 6))"

subsection \<open>Commands\<close>

text \<open>
  The band state is the pair of arrays \<^verbatim>\<open>bandGains\<close> and \<^verbatim>\<open>bandQs\<close>, which hold
  encoded values as JavaScript numbers. Reading an array past its end gives
  \<^verbatim>\<open>undefined\<close>, and a typed array stores \<^verbatim>\<open>undefined\<close> as 0.
\<close>

record eq_state =
  bandGains :: "int list"
  bandQs :: "int list"

definition initial_eq :: eq_state where
  \<comment> \<open>\<^verbatim>\<open>new Array(NUM_BANDS).fill(GAIN_OFFSET)\<close> and \<^verbatim>\<open>new Array(NUM_BANDS).fill(DEFAULT_Q)\<close>\<close>
  "initial_eq = \<lparr>bandGains = replicate NUM_BANDS GAIN_OFFSET, bandQs = replicate NUM_BANDS DEFAULT_Q\<rparr>"

definition toUint8 :: "int list \<Rightarrow> nat \<Rightarrow> byte" where
  \<comment> \<open>the byte that \<^verbatim>\<open>payload[k] = xs[i]\<close> stores\<close>
  "toUint8 xs i = (if i < length xs then word_of_int (xs ! i) else 0)"

definition customEqPayload :: "eq_state \<Rightarrow> byte list" where
  \<comment> \<open>the payload that \<^verbatim>\<open>sendCustomEQ\<close> fills, band by band\<close>
  "customEqPayload st =
     fold (\<lambda>i payload.
             payload[i * 3 := of_nat i,
                     i * 3 + 1 := toUint8 (bandGains st) i,
                     i * 3 + 2 := toUint8 (bandQs st) i])
          [0..<NUM_BANDS] (new_Uint8Array (NUM_BANDS * 3))"

definition sendCustomEQ :: "eq_state \<Rightarrow> byte list" where
  \<comment> \<open>the packet handed to \<^verbatim>\<open>sendCommand\<close>\<close>
  "sendCustomEQ st = buildPacket CMD_CUSTOM_EQ TYPE_NOTIFY (Some (customEqPayload st))"

definition requestDeviceInfo :: "byte list" where
  "requestDeviceInfo = buildPacket CMD_DEVICE_INFO TYPE_REQUEST None"

definition selectPreset :: "int \<Rightarrow> byte list" where
  "selectPreset presetNum = buildPacket CMD_SELECT_EQ TYPE_REQUEST (Some [word_of_int presetNum])"

definition encodeQ :: "real \<Rightarrow> int" where
  \<comment> \<open>the value that \<^verbatim>\<open>applyCustomPreset\<close>, in the copy of the client that has the custom
      presets, stores in \<^verbatim>\<open>bandQs[i]\<close>\<close>
  "encodeQ qReal = max 0 (min 255 (Math_round (double_of (qReal * 10))))"

datatype error = PayloadTooShort | RangeError

definition setBand :: "int \<Rightarrow> real \<Rightarrow> real \<Rightarrow> eq_state \<Rightarrow> error + eq_state" where
  \<comment> \<open>Modelled from the spec: \<^verbatim>\<open>setBand\<close> is not in the web client (the sliders and
      \<^verbatim>\<open>applyCustomPreset\<close> write the arrays directly). It fails with a range error when
      the index is outside 0..7 and otherwise stores the encoded gain and the encoded Q.\<close>
  "setBand index gainDb qReal st =
     (if index < 0 \<or> 7 < index then Inl RangeError
      else Inr (st\<lparr>bandGains := (bandGains st)[nat index := encodeGain gainDb],
                   bandQs := (bandQs st)[nat index := encodeQ qReal]\<rparr>))"

subsection \<open>Device-info parser\<close>

record device_info =
  batteryLeft :: byte
  batteryRight :: byte
  deviceName :: string

definition slice_list :: "'a list \<Rightarrow> nat \<Rightarrow> nat \<Rightarrow> 'a list" where
  \<comment> \<open>\<^verbatim>\<open>xs.slice(a, b)\<close> for \<open>0 \<le> a \<le> b\<close>; both ends are cut at the length\<close>
  "slice_list xs a b = take (b - a) (drop a xs)"

definition fromCharCode :: "byte \<Rightarrow> char" where
  "fromCharCode b = char_of (unat b)"

fun name_loop :: "byte list \<Rightarrow> string \<Rightarrow> bool \<times> string" where
  \<comment> \<open>the loop over \<^verbatim>\<open>j\<close>: it stops at the first byte that is not printable\<close>
  "name_loop [] name = (True, name)"
| "name_loop (b # bs) name =
     (if b < 0x20 \<or> b > 0x7e then (False, name)
      else name_loop bs (name @ [fromCharCode b]))"

fun scan_name :: "byte list \<Rightarrow> nat \<Rightarrow> string" where
  \<comment> \<open>the loop over \<^verbatim>\<open>i\<close>, from the given index down to 5\<close>
  "scan_name payload i =
     (if 5 \<le> i then
        (let nameLen = unat (payload ! i) in
         if 0 < nameLen \<and> nameLen < 32 \<and> i + 1 + nameLen \<le> length payload then
           (let nameBytes = slice_list payload (i + 1) (i + 1 + nameLen);
                (valid, name) = name_loop nameBytes []
            in if valid \<and> length name = nameLen then name
               else scan_name payload (i - 1))
         else scan_name payload (i - 1))
      else [])"

definition parse_info :: "byte list \<Rightarrow> error + device_info" where
  \<comment> \<open>what \<^verbatim>\<open>parseDeviceInfo\<close> computes before it logs and updates the page; the early
      return on a short payload is \<open>Inl PayloadTooShort\<close>\<close>
  "parse_info payload =
     (if length payload < 5 then Inl PayloadTooShort
      else Inr \<lparr>batteryLeft = payload ! 2,
                batteryRight = payload ! 3,
                deviceName = scan_name payload (length payload - 1)\<rparr>)"

subsection \<open>Notification handler\<close>

text \<open>
  The handler reports what it received by one log line. \<open>Unrecognized None\<close> is the line
  ``Unknown packet (no QXW prefix)'', \<open>Unrecognized (Some cmd)\<close> is ``Unknown command''
  with the command code, \<open>PresetConfirmed\<close> and \<open>CustomEqConfirmed\<close> are the two
  confirmations, and \<open>DeviceInfoNotification\<close> carries the result of the device-info parser.
\<close>

datatype event =
    Unrecognized "byte option"
  | DeviceInfoNotification "error + device_info"
  | PresetConfirmed
  | CustomEqConfirmed

definition decode :: "byte list \<Rightarrow> event" where
  \<comment> \<open>the dispatch of \<^verbatim>\<open>onNotification\<close>\<close>
  "decode value =
     (if length value < 5 \<or> value ! 0 \<noteq> 0x51 \<or> value ! 1 \<noteq> 0x58 \<or> value ! 2 \<noteq> 0x57
      then Unrecognized None
      else
        (let cmd = value ! 3 in
         if cmd = CMD_DEVICE_INFO \<and> value ! 4 = 0x02
         then DeviceInfoNotification (parse_info (drop 5 value))
         else if cmd = CMD_SELECT_EQ then PresetConfirmed
         else if cmd = CMD_CUSTOM_EQ then CustomEqConfirmed
         else Unrecognized (Some cmd)))"

subsection \<open>The page\<close>

datatype log_msg = RX "byte list" | Report event

record page =
  console :: "log_msg list"
  bat_left :: string
  bat_right :: string
  device_name :: string
  info_card_hidden :: bool

definition log_line :: "log_msg \<Rightarrow> page \<Rightarrow> page" where
  "log_line msg pg = pg\<lparr>console := console pg @ [msg]\<rparr>"

fun decimal :: "nat \<Rightarrow> string" where
  \<comment> \<open>a number in a string concatenation\<close>
  "decimal n = (if n < 10 then [char_of (48 + n)] else decimal (n div 10) @ [char_of (48 + n mod 10)])"

definition parseDeviceInfo :: "byte list \<Rightarrow> page \<Rightarrow> page" where
  "parseDeviceInfo payload pg =
     (case parse_info payload of
        Inl e \<Rightarrow> log_line (Report (DeviceInfoNotification (Inl e))) pg
      | Inr d \<Rightarrow>
          (log_line (Report (DeviceInfoNotification (Inr d))) pg)
            \<lparr>bat_left := decimal (unat (batteryLeft d)) @ ''%'',
             bat_right := decimal (unat (batteryRight d)) @ ''%'',
             device_name := deviceName d,
             info_card_hidden := False\<rparr>)"

definition onNotification :: "byte list \<Rightarrow> page \<Rightarrow> page" where
  "onNotification value pg =
     (let pg = log_line (RX value) pg in
      case decode value of
        DeviceInfoNotification r \<Rightarrow> parseDeviceInfo (drop 5 value) pg
      | e \<Rightarrow> log_line (Report e) pg)"

definition blank_page :: page where
  \<comment> \<open>a page on which nothing has been logged or shown yet\<close>
  "blank_page =
     \<lparr>console = [], bat_left = [], bat_right = [], device_name = [], info_card_hidden = True\<rparr>"

subsection \<open>The name scan in the words of the specification\<close>

definition printable :: "byte \<Rightarrow> bool" where
  "printable b = (0x20 \<le> b \<and> b \<le> 0x7e)"

definition accepts :: "byte list \<Rightarrow> nat \<Rightarrow> bool" where
  \<comment> \<open>index \<open>i\<close> holds a length prefix that is followed by that many printable bytes\<close>
  "accepts payload i =
     (let nameLen = unat (payload ! i) in
      0 < nameLen \<and> nameLen < 32 \<and> i + 1 + nameLen \<le> length payload \<and>
      list_all printable (slice_list payload (i + 1) (i + 1 + nameLen)))"

definition spec_name :: "byte list \<Rightarrow> string" where
  \<comment> \<open>the bytes after the rightmost accepted index from 5 on, or the empty string\<close>
  "spec_name payload =
     (case find (accepts payload) (rev [5..<length payload]) of
        None \<Rightarrow> []
      | Some i \<Rightarrow> map fromCharCode (slice_list payload (i + 1) (i + 1 + unat (payload ! i))))"

subsection \<open>The gain encoding in the words of the specification\<close>

definition roundHalfAway :: "real \<Rightarrow> int" where
  \<comment> \<open>the nearest integer, a tie going away from zero\<close>
  "roundHalfAway y = (if 0 \<le> y then \<lfloor>y + 1 / 2\<rfloor> else \<lceil>y - 1 / 2\<rceil>)"

definition spec_encodeGain :: "(real \<Rightarrow> int) \<Rightarrow> real \<Rightarrow> int" where
  \<comment> \<open>\<open>round(dB * 10) + 120\<close> clamped to 0..255, for a rounding \<open>rnd\<close> of the real product\<close>
  "spec_encodeGain rnd dB = max 0 (min 255 (rnd (dB * 10) + 120))"

section \<open>Properties\<close>

text \<open>
  The loops that are not structurally recursive are unfolded by hand, one step at a time,
  not by the simplifier.
\<close>

declare bit_length.simps [simp del]

declare scan_name.simps [simp del]

declare decimal.simps [simp del]

subsection \<open>Packet builder\<close>

lemma new_Uint8Array_header:
  "new_Uint8Array (6 + n) = [0, 0, 0, 0, 0, 0] @ replicate n 0"
  unfolding new_Uint8Array_def replicate_add by (simp add: numeral_eq_Suc)

lemma buildPacket_Some:
  "buildPacket cmd type (Some p) = [0x51, 0x58, 0x57, cmd, type, of_nat (length p)] @ p"
  by (simp add: buildPacket_def Let_def new_Uint8Array_header typed_set_def QXW_PREFIX_def)

lemma buildPacket_None:
  "buildPacket cmd type None = [0x51, 0x58, 0x57, cmd, type, 0]"
  using new_Uint8Array_header [of 0]
  by (simp add: buildPacket_def Let_def QXW_PREFIX_def)

text \<open>The packets of the protocol description: the device-info request and ``Bass boost''.\<close>

lemma requestDeviceInfo_bytes: "requestDeviceInfo = [0x51, 0x58, 0x57, 0x27, 0x01, 0x00]"
  by (simp add: requestDeviceInfo_def buildPacket_None CMD_DEVICE_INFO_def TYPE_REQUEST_def)

lemma selectPreset_bass: "selectPreset 2 = [0x51, 0x58, 0x57, 0x10, 0x01, 0x01, 0x02]"
  by (simp add: selectPreset_def buildPacket_Some CMD_SELECT_EQ_def TYPE_REQUEST_def)

text \<open>
  Claim C1. For every command byte, type byte and payload of at most 255 bytes,
  \<^verbatim>\<open>buildPacket\<close> returns the bytes 0x51 0x58 0x57, the command, the type and the payload
  length, followed by the payload: the frame has 6 + len(payload) bytes and byte 5 reads
  as len(payload).
\<close>

theorem buildPacket_frame:
  assumes "length payload \<le> 255"
  shows "buildPacket cmd type (Some payload)
           = [0x51, 0x58, 0x57, cmd, type, of_nat (length payload)] @ payload
         \<and> length (buildPacket cmd type (Some payload)) = 6 + length payload
         \<and> unat (buildPacket cmd type (Some payload) ! 5) = length payload"
proof -
  have "unat (of_nat (length payload) :: byte) = length payload"
    using assms by (simp add: unat_of_nat)
  then show ?thesis
    by (simp add: buildPacket_Some)
qed

theorem buildPacket_frame_witness:
  "length [0x01 :: byte] \<le> 255
   \<and> buildPacket 0x10 0x01 (Some [0x01]) = [0x51, 0x58, 0x57, 0x10, 0x01, 0x01, 0x01]
   \<and> length (buildPacket 0x10 0x01 (Some [0x01])) = 7
   \<and> unat (buildPacket 0x10 0x01 (Some [0x01]) ! 5) = 1"
  using buildPacket_frame [where payload = "[0x01]" and cmd = "0x10" and type = "0x01"] by simp

subsection \<open>Payloads longer than 255 bytes\<close>

text \<open>
  Claim C7, as amended. \<^verbatim>\<open>buildPacket\<close> has no failing branch: for every payload, also one
  longer than 255 bytes, it returns a frame of 6 + len(payload) bytes that ends with the
  payload and whose byte 5 is len(payload) modulo 256.
\<close>

theorem buildPacket_no_length_check:
  "buildPacket cmd type (Some payload)
           = [0x51, 0x58, 0x57, cmd, type, of_nat (length payload)] @ payload
   \<and>  length (buildPacket cmd type (Some payload)) = 6 + length payload
   \<and> unat (buildPacket cmd type (Some payload) ! 5) = length payload mod 256
   \<and> drop 6 (buildPacket cmd type (Some payload)) = payload"
  by (simp add: buildPacket_Some unat_of_nat)

text \<open>
  A payload of 256 zero bytes is framed, with the length byte 0; no error is raised.
\<close>

theorem buildPacket_long_payload_counterexample:
  "buildPacket 0x20 0x03 (Some (replicate 256 0))
     = [0x51, 0x58, 0x57, 0x20, 0x03, 0x00] @ replicate 256 0
   \<and> length (buildPacket 0x20 0x03 (Some (replicate 256 0))) = 262"
  by (simp add: buildPacket_Some)

subsection \<open>Rounding to a double\<close>

lemma bit_length_pos: "0 < n \<Longrightarrow> 0 < bit_length n"
  by (subst bit_length.simps) simp

lemma bit_length_bounds:
  "0 < n \<Longrightarrow> 2 ^ (bit_length n - 1) \<le> n \<and> n < 2 ^ bit_length n"
proof (induction n rule: bit_length.induct)
  case (1 n)
  show ?case
  proof (cases "n div 2 = 0")
    case True
    then have "n = 1"
      using "1.prems" by auto
    then show ?thesis
      by (simp add: bit_length.simps [of "Suc 0"] bit_length.simps [of 0])
  next
    case False
    then have h: "0 < n div 2"
      by simp
    then have ih: "2 ^ (bit_length (n div 2) - 1) \<le> n div 2 \<and> n div 2 < 2 ^ bit_length (n div 2)"
      using "1.IH" "1.prems" by simp
    have bl: "bit_length n = Suc (bit_length (n div 2))"
      using "1.prems" by (subst bit_length.simps) simp
    have pos: "0 < bit_length (n div 2)"
      using h by (rule bit_length_pos)
    then have "(2::nat) ^ bit_length (n div 2) = 2 * 2 ^ (bit_length (n div 2) - 1)"
      by (cases "bit_length (n div 2)") simp_all
    then have "2 ^ bit_length (n div 2) \<le> n"
      using ih by linarith
    moreover have "n < 2 * 2 ^ bit_length (n div 2)"
      using ih by linarith
    ultimately show ?thesis
      by (simp add: bl)
  qed
qed

lemma powi_neg: "(2::real) powi (- int k) = 1 / 2 ^ k"
  by (simp add: power_int_minus field_simps)

lemma binade_bounds:
  assumes "x \<noteq> 0"
  shows "2 powi binade x \<le> \<bar>x\<bar> \<and> \<bar>x\<bar> < 2 powi (binade x + 1)"
proof (cases "1 \<le> \<bar>x\<bar>")
  case True
  define n where "n = nat \<lfloor>\<bar>x\<bar>\<rfloor>"
  have n: "0 < n" "real n \<le> \<bar>x\<bar>" "\<bar>x\<bar> < real n + 1"
    using True unfolding n_def by linarith+
  have b: "2 ^ (bit_length n - 1) \<le> n \<and> n < 2 ^ bit_length n"
    using n(1) by (rule bit_length_bounds)
  have e: "binade x = int (bit_length n) - 1"
    using True by (simp add: binade_def n_def)
  have pos: "0 < bit_length n"
    using n(1) by (rule bit_length_pos)
  have lo: "(2::real) powi binade x = 2 ^ (bit_length n - 1)"
    using pos by (simp add: e power_int_def nat_diff_distrib')
  have hi: "(2::real) powi (binade x + 1) = 2 ^ bit_length n"
    by (simp add: e power_int_def)
  have "real (2 ^ (bit_length n - 1)) \<le> real n" "real (n + 1) \<le> real (2 ^ bit_length n)"
    using b by (simp_all only: of_nat_le_iff) linarith+
  then have "(2::real) ^ (bit_length n - 1) \<le> real n" "real n + 1 \<le> 2 ^ bit_length n"
    by simp_all
  then show ?thesis
    unfolding lo hi using n by linarith
next
  case False
  then have small: "0 < \<bar>x\<bar>" "\<bar>x\<bar> < 1"
    using assms by simp_all
  define y where "y = 1 / \<bar>x\<bar>"
  have y: "1 < y" "0 < y"
    using small by (simp_all add: y_def)
  define m where "m = nat (\<lceil>y\<rceil> - 1)"
  have m: "0 < m" "real m < y" "y \<le> real m + 1"
    using y unfolding m_def by linarith+
  have b: "2 ^ (bit_length m - 1) \<le> m \<and> m < 2 ^ bit_length m"
    using m(1) by (rule bit_length_bounds)
  have e: "binade x = - int (bit_length m)"
    using False by (simp add: binade_def m_def y_def)
  have pos: "0 < bit_length m"
    using m(1) by (rule bit_length_pos)
  have lo: "(2::real) powi binade x = 1 / 2 ^ bit_length m"
    unfolding e by (rule powi_neg)
  have "binade x + 1 = - int (bit_length m - 1)"
    using pos e by linarith
  then have hi: "(2::real) powi (binade x + 1) = 1 / 2 ^ (bit_length m - 1)"
    by (simp only: powi_neg)
  have "real (2 ^ (bit_length m - 1)) \<le> real m" "real (m + 1) \<le> real (2 ^ bit_length m)"
    using b by (simp_all only: of_nat_le_iff) linarith+
  then have r: "(2::real) ^ (bit_length m - 1) \<le> real m" "real m + 1 \<le> 2 ^ bit_length m"
    by simp_all
  have x: "\<bar>x\<bar> = 1 / y"
    using small by (simp add: y_def)
  have lt: "(2::real) ^ (bit_length m - 1) < y"
    using r(1) m(2) by linarith
  have le: "y \<le> 2 ^ bit_length m"
    using r(2) m(3) by linarith
  have "1 / 2 ^ bit_length m \<le> 1 / y"
    using le y(2) by (intro divide_left_mono) simp_all
  moreover have "1 / y < 1 / 2 ^ (bit_length m - 1)"
    using lt y(2) by (intro divide_strict_left_mono) simp_all
  ultimately show ?thesis
    unfolding lo hi x by simp
qed

lemma roundTiesToEven_near: "\<bar>real_of_int (roundTiesToEven y) - y\<bar> \<le> 1 / 2"
  unfolding roundTiesToEven_def Let_def by (auto; linarith)

lemma roundTiesToEven_of_int: "roundTiesToEven (real_of_int n) = n"
  by (simp add: roundTiesToEven_def)

text \<open>The double of the literal \<^verbatim>\<open>0.1\<close>, and two numbers that are doubles already.\<close>

lemma double_of_examples:
  "double_of (1 / 10) = 3602879701896397 / 36028797018963968"
  "double_of 13.5 = 13.5"
  "double_of (- 120) = - 120"
  by code_simp+

text \<open>A product that lies halfway between two doubles goes to the even significand.\<close>

lemma double_of_tie:
  "double_of (2026619832316723 / 4503599627370496 * 10) = 9 / 2"
  by code_simp

lemma double_of_error: "\<bar>double_of x - x\<bar> \<le> \<bar>x\<bar> / 2 ^ 53"
proof (cases "x = 0")
  case True
  then show ?thesis by (simp add: double_of_def)
next
  case False
  define q :: real where "q = 2 powi (binade x - 52)"
  have q: "0 < q"
    by (simp add: q_def)
  have d: "double_of x = real_of_int (roundTiesToEven (x / q)) * q"
    using False by (simp add: double_of_def q_def Let_def)
  have "double_of x - x = (real_of_int (roundTiesToEven (x / q)) - x / q) * q"
    using q by (simp add: d field_simps)
  then have "\<bar>double_of x - x\<bar> = \<bar>real_of_int (roundTiesToEven (x / q)) - x / q\<bar> * q"
    using q by (simp add: abs_mult)
  also have "\<dots> \<le> 1 / 2 * q"
    using roundTiesToEven_near [of "x / q"] q by (intro mult_right_mono) simp_all
  also have "1 / 2 * q = 2 powi binade x / 2 ^ 53"
    by (simp add: q_def power_int_diff)
  also have "\<dots> \<le> \<bar>x\<bar> / 2 ^ 53"
    using binade_bounds [OF False] by (intro divide_right_mono) simp_all
  finally show ?thesis .
qed

lemma double_of_int:
  assumes "\<bar>n\<bar> < 2 ^ 53"
  shows "double_of (real_of_int n) = real_of_int n"
proof (cases "n = 0")
  case True
  then show ?thesis by (simp add: double_of_def)
next
  case False
  define e where "e = binade (real_of_int n)"
  have nz: "real_of_int n \<noteq> 0"
    using False by simp
  have b: "2 powi e \<le> \<bar>real_of_int n\<bar>"
    unfolding e_def using binade_bounds [OF nz] by simp
  have "\<bar>real_of_int n\<bar> < 2 powi 53"
    using assms by (simp add: of_int_abs [symmetric] del: of_int_abs)
  with b have "(2::real) powi e < 2 powi 53"
    by linarith
  then have "e < 53"
    using power_int_increasing [of 53 e "2::real"] by (cases "e < 53") simp_all
  then have k: "0 \<le> 52 - e"
    by simp
  have q: "(2::real) powi (e - 52) = 1 / 2 ^ nat (52 - e)"
    using k by (simp add: power_int_def field_simps nat_diff_distrib')
  have "real_of_int n / (2 powi (e - 52)) = real_of_int (n * 2 ^ nat (52 - e))"
    by (simp add: q)
  then have "roundTiesToEven (real_of_int n / (2 powi (e - 52))) = n * 2 ^ nat (52 - e)"
    by (simp only: roundTiesToEven_of_int)
  then show ?thesis
    using False by (simp add: double_of_def Let_def e_def [symmetric] q)
qed

subsection \<open>Gain encoding\<close>

lemma Math_round_nearest:
  "real_of_int (Math_round y) - 1 / 2 \<le> y \<and> y < real_of_int (Math_round y) + 1 / 2"
  unfolding Math_round_def by linarith

lemma Math_round_unique:
  "real_of_int n - 1 / 2 \<le> y \<Longrightarrow> y < real_of_int n + 1 / 2 \<Longrightarrow> Math_round y = n"
  unfolding Math_round_def by linarith

lemma pow_2_53: "(2::real) ^ 53 = 9007199254740992"
  by simp

lemma pow_2_48: "(2::real) ^ 48 = 281474976710656"
  by simp

lemma double_of_close: "\<bar>double_of x - x\<bar> \<le> \<bar>x\<bar> / 9007199254740992"
  unfolding pow_2_53 [symmetric] by (rule double_of_error)

lemma encodeGain_unclamped:
  assumes "- 12 \<le> db" "db \<le> 13.5"
  shows "- 120 \<le> Math_round (double_of (db * 10)) \<and> Math_round (double_of (db * 10)) \<le> 135"
proof -
  have e: "\<bar>double_of (db * 10) - db * 10\<bar> \<le> \<bar>db * 10\<bar> / 9007199254740992"
    by (rule double_of_close)
  have "- 120 - 1 / 4 \<le> double_of (db * 10)" "double_of (db * 10) \<le> 135 + 1 / 4"
    using e assms by linarith+
  then have "- 120 \<le> \<lfloor>double_of (db * 10) + 1 / 2\<rfloor>" "\<lfloor>double_of (db * 10) + 1 / 2\<rfloor> \<le> 135"
    by linarith+
  then show ?thesis
    by (simp add: Math_round_def)
qed

text \<open>
  Claim C4, as amended. \<^verbatim>\<open>encodeGain\<close> is \<^verbatim>\<open>Math.round(dB * 10) + 120\<close> clamped to 0..255 for
  every finite dB: the product is the double product, within \<open>\<bar>dB * 10\<bar> / 2 ^ 53\<close> of the
  exact one, and \<^verbatim>\<open>Math.round\<close> gives the integer \<open>n\<close> with \<open>n - 1 / 2 \<le> y < n + 1 / 2\<close>, so
  a tie goes towards plus infinity (-0.75 dB encodes to 113 and 0.25 dB to 123). For dB
  between -12.0 and 13.5 the clamp is not hit, so the result lies in 0..255; and -12.0,
  0.0 and 13.5 encode to 0, 120 and 255. The doubles nearest to 0.15 and just below 0.45,
  whose double products are 1.5 and 4.5, encode to 122 and 125.
\<close>

theorem encodeGain_range:
  "encodeGain db = max 0 (min 255 (Math_round (double_of (db * 10)) + 120))
   \<and> real_of_int (Math_round y) - 1 / 2 \<le> y \<and> y < real_of_int (Math_round y) + 1 / 2
   \<and> \<bar>double_of (db * 10) - db * 10\<bar> \<le> \<bar>db * 10\<bar> / 2 ^ 53
   \<and> 0 \<le> encodeGain db \<and> encodeGain db \<le> 255
   \<and> (- 12 \<le> db \<and> db \<le> 13.5 \<longrightarrow> encodeGain db = Math_round (double_of (db * 10)) + 120)
   \<and> encodeGain (- 12) = 0 \<and> encodeGain 0 = 120 \<and> encodeGain 13.5 = 255
   \<and> encodeGain (- 3 / 4) = 113 \<and> encodeGain (1 / 4) = 123
   \<and> encodeGain (5404319552844595 / 36028797018963968) = 122
   \<and> encodeGain (2026619832316723 / 4503599627370496) = 125"
proof (intro conjI impI)
  show "encodeGain db = max 0 (min 255 (Math_round (double_of (db * 10)) + 120))"
    by (simp add: encodeGain_def GAIN_SCALE_def GAIN_OFFSET_def Let_def)
  show "real_of_int (Math_round y) - 1 / 2 \<le> y" "y < real_of_int (Math_round y) + 1 / 2"
    using Math_round_nearest [of y] by simp_all
  show "\<bar>double_of (db * 10) - db * 10\<bar> \<le> \<bar>db * 10\<bar> / 2 ^ 53"
    by (rule double_of_error)
  show "0 \<le> encodeGain db" "encodeGain db \<le> 255"
    by (simp_all add: encodeGain_def GAIN_SCALE_def GAIN_OFFSET_def Let_def)
  show "encodeGain db = Math_round (double_of (db * 10)) + 120" if "- 12 \<le> db \<and> db \<le> 13.5"
    using encodeGain_unclamped [of db] that by (simp add: encodeGain_def GAIN_SCALE_def GAIN_OFFSET_def Let_def)
  show "encodeGain (- 12) = 0" "encodeGain 0 = 120" "encodeGain 13.5 = 255"
    "encodeGain (- 3 / 4) = 113" "encodeGain (1 / 4) = 123"
    "encodeGain (5404319552844595 / 36028797018963968) = 122"
    "encodeGain (2026619832316723 / 4503599627370496) = 125"
    by code_simp+
qed

theorem encodeGain_range_witness:
  "(- 12 :: real) \<le> 9 / 32 \<and> (9 / 32 :: real) \<le> 13.5
   \<and> Math_round (double_of (9 / 32 * 10)) = 3 \<and> encodeGain (9 / 32) = 123"
proof -
  have h: "(- 12 :: real) \<le> 9 / 32 \<and> (9 / 32 :: real) \<le> 13.5"
    by simp
  have r: "Math_round (double_of (9 / 32 * 10)) = 3"
    by code_simp
  from encodeGain_range [of "9 / 32"] h
  have "encodeGain (9 / 32) = Math_round (double_of (9 / 32 * 10)) + 120"
    by blast
  then have "encodeGain (9 / 32) = 123"
    unfolding r by simp
  with h r show ?thesis
    by blast
qed

text \<open>
  At -0.75 dB the product is the tie -7.5: the code encodes it to 113, and both roundings
  that the specification allows give 112. At the double nearest to 0.15 the exact product
  is below 1.5 and rounds to 1, which gives 121, but the double product is 1.5 and the
  code gives 122.
\<close>

theorem encodeGain_round_counterexample:
  "encodeGain (- 3 / 4) = 113
   \<and> spec_encodeGain roundTiesToEven (- 3 / 4) = 112
   \<and> spec_encodeGain roundHalfAway (- 3 / 4) = 112
   \<and> double_of (15 / 100) = 5404319552844595 / 36028797018963968
   \<and> encodeGain (5404319552844595 / 36028797018963968) = 122
   \<and> spec_encodeGain roundTiesToEven (5404319552844595 / 36028797018963968) = 121
   \<and> spec_encodeGain roundHalfAway (5404319552844595 / 36028797018963968) = 121"
  by (intro conjI; code_simp)

lemma decodeGain_small:
  assumes "- 120 \<le> n" "n \<le> 135"
  shows "decodeGain (n + 120) = double_of (real_of_int n / 10)"
proof -
  have "\<bar>n\<bar> < 2 ^ 53"
    using assms by simp
  then have "double_of (real_of_int n) = real_of_int n"
    by (rule double_of_int)
  then show ?thesis
    by (simp add: decodeGain_def GAIN_SCALE_def GAIN_OFFSET_def)
qed

lemma encodeGain_tenth:
  assumes "- 120 \<le> k" "k \<le> 135"
  shows "encodeGain (double_of (real_of_int k / 10)) = k + 120"
proof -
  define x where "x = double_of (real_of_int k / 10)"
  have e1: "\<bar>x - real_of_int k / 10\<bar> \<le> \<bar>real_of_int k / 10\<bar> / 9007199254740992"
    unfolding x_def by (rule double_of_close)
  have e2: "\<bar>double_of (x * 10) - x * 10\<bar> \<le> \<bar>x * 10\<bar> / 9007199254740992"
    by (rule double_of_close)
  have k: "- 120 \<le> real_of_int k" "real_of_int k \<le> 135"
    using assms by simp_all
  have p: "\<bar>x * 10 - real_of_int k\<bar> \<le> 1 / 8"
    using e1 k by linarith
  have "\<bar>double_of (x * 10) - real_of_int k\<bar> \<le> 1 / 4"
    using e2 p k by linarith
  then have "Math_round (double_of (x * 10)) = k"
    by (intro Math_round_unique) linarith+
  then show ?thesis
    using assms by (simp add: encodeGain_def GAIN_SCALE_def GAIN_OFFSET_def Let_def x_def [symmetric])
qed

text \<open>
  Claim C9, as amended. For the double nearest to a multiple \<open>k / 10\<close> of 0.1 dB between
  -12.0 and 13.5, decoding the encoded gain gives that double back. For every \<open>x\<close> whose
  encoding is not clamped, decoding gives the double nearest to a tenth of
  \<^verbatim>\<open>Math.round(x * 10)\<close>, where the product is the double product; it is within
  \<open>0.05 + 2 ^ -48\<close> dB of \<open>x\<close>, and need not be the tenth nearest to \<open>x\<close>. The byte 123
  decodes to the double nearest to 0.3.
\<close>

theorem decodeGain_encodeGain:
  "(- 120 \<le> k \<and> k \<le> 135 \<longrightarrow>
      decodeGain (encodeGain (double_of (real_of_int k / 10))) = double_of (real_of_int k / 10))
   \<and> (0 \<le> Math_round (double_of (x * 10)) + 120
        \<and> Math_round (double_of (x * 10)) + 120 \<le> 255 \<longrightarrow>
        decodeGain (encodeGain x)
          = double_of (real_of_int (Math_round (double_of (x * 10))) / 10)
        \<and> \<bar>decodeGain (encodeGain x) - x\<bar> \<le> 1 / 20 + 1 / 2 ^ 48)
   \<and> decodeGain 123 = 5404319552844595 / 18014398509481984"
proof (intro conjI impI)
  show "decodeGain 123 = 5404319552844595 / 18014398509481984"
    by code_simp
next
  assume "- 120 \<le> k \<and> k \<le> 135"
  then show "decodeGain (encodeGain (double_of (real_of_int k / 10)))
      = double_of (real_of_int k / 10)"
    by (simp add: encodeGain_tenth decodeGain_small)
next
  define n where "n = Math_round (double_of (x * 10))"
  assume "0 \<le> Math_round (double_of (x * 10)) + 120
        \<and> Math_round (double_of (x * 10)) + 120 \<le> 255"
  then have n: "- 120 \<le> n" "n \<le> 135"
    by (simp_all add: n_def)
  have enc: "encodeGain x = n + 120"
    using n by (simp add: encodeGain_def GAIN_SCALE_def GAIN_OFFSET_def Let_def n_def [symmetric])
  have dec: "decodeGain (encodeGain x) = double_of (real_of_int n / 10)"
    unfolding enc using n by (rule decodeGain_small)
  then show "decodeGain (encodeGain x)
      = double_of (real_of_int (Math_round (double_of (x * 10))) / 10)"
    by (simp add: n_def)
  have rn: "- 120 \<le> real_of_int n" "real_of_int n \<le> 135"
    using n by simp_all
  have e1: "\<bar>double_of (real_of_int n / 10) - real_of_int n / 10\<bar>
      \<le> \<bar>real_of_int n / 10\<bar> / 9007199254740992"
    by (rule double_of_close)
  have e2: "\<bar>double_of (x * 10) - x * 10\<bar> \<le> \<bar>x * 10\<bar> / 9007199254740992"
    by (rule double_of_close)
  have e3: "real_of_int n - 1 / 2 \<le> double_of (x * 10)" "double_of (x * 10) < real_of_int n + 1 / 2"
    using Math_round_nearest [of "double_of (x * 10)"] by (simp_all add: n_def)
  have a: "\<bar>double_of (real_of_int n / 10) - real_of_int n / 10\<bar> \<le> 16 / 9007199254740992"
    using e1 rn by linarith
  have x: "\<bar>x * 10\<bar> \<le> 136"
    using e2 e3 rn by linarith
  have b: "\<bar>double_of (x * 10) - x * 10\<bar> \<le> 136 / 9007199254740992"
    using e2 x by linarith
  have "\<bar>double_of (real_of_int n / 10) - x\<bar> \<le> 1 / 20 + 1 / 281474976710656"
    using a b e3 by linarith
  then show "\<bar>decodeGain (encodeGain x) - x\<bar> \<le> 1 / 20 + 1 / 2 ^ 48"
    unfolding dec pow_2_48 .
qed

theorem decodeGain_encodeGain_witness:
  "- 120 \<le> (3::int) \<and> (3::int) \<le> 135
   \<and> decodeGain (encodeGain (double_of (real_of_int 3 / 10))) = double_of (real_of_int 3 / 10)
   \<and> 0 \<le> Math_round (double_of (9 / 32 * 10)) + 120
   \<and> Math_round (double_of (9 / 32 * 10)) + 120 \<le> 255
   \<and> decodeGain (encodeGain (9 / 32)) = double_of (real_of_int 3 / 10)"
proof -
  have r: "Math_round (double_of (9 / 32 * 10)) = 3"
    by code_simp
  have h1: "- 120 \<le> (3::int) \<and> (3::int) \<le> 135"
    by simp
  have h2: "0 \<le> Math_round (double_of (9 / 32 * 10)) + 120
      \<and> Math_round (double_of (9 / 32 * 10)) + 120 \<le> 255"
    unfolding r by simp
  from decodeGain_encodeGain [of 3 "9 / 32"] h1 h2
  have a: "decodeGain (encodeGain (double_of (real_of_int 3 / 10))) = double_of (real_of_int 3 / 10)"
    and "decodeGain (encodeGain (9 / 32))
          = double_of (real_of_int (Math_round (double_of (9 / 32 * 10))) / 10)"
    by blast+
  then have b: "decodeGain (encodeGain (9 / 32)) = double_of (real_of_int 3 / 10)"
    by (simp only: r)
  from h1 h2 a b show ?thesis
    by blast
qed

text \<open>
  The double just below 0.45 is a number whose encoding is not clamped. It lies between
  0.35 and 0.45, so the nearest tenth is 0.4, and its exact product with 10 rounds to 4.
  Its double product with 10 is exactly 4.5, so it encodes to 125 and decodes to 0.5,
  which is more than 0.05 dB away.
\<close>

theorem decodeGain_encodeGain_counterexample:
  "double_of (2026619832316723 / 4503599627370496) = 2026619832316723 / 4503599627370496
   \<and> 0 \<le> Math_round (double_of (2026619832316723 / 4503599627370496 * 10)) + 120
   \<and> Math_round (double_of (2026619832316723 / 4503599627370496 * 10)) + 120 \<le> 255
   \<and> (35 / 100 :: real) < 2026619832316723 / 4503599627370496
   \<and> 2026619832316723 / 4503599627370496 < (45 / 100 :: real)
   \<and> Math_round (2026619832316723 / 4503599627370496 * 10) = 4
   \<and> decodeGain (encodeGain (2026619832316723 / 4503599627370496)) = 1 / 2
   \<and> 1 / 20 < \<bar>decodeGain (encodeGain (2026619832316723 / 4503599627370496))
                  - 2026619832316723 / 4503599627370496\<bar>"
  by (intro conjI; code_simp)

subsection \<open>Custom-EQ payload\<close>

lemma upt_NUM_BANDS: "[0..<NUM_BANDS] = [0, 1, 2, 3, 4, 5, 6, 7]"
  by (simp add: NUM_BANDS_def upt_rec)

lemma new_Uint8Array_24:
  "new_Uint8Array (NUM_BANDS * 3) =
     [0, 0, 0, 0, 0, 0, 0, 0, 0, 0, 0, 0, 0, 0, 0, 0, 0, 0, 0, 0, 0, 0, 0, 0]"
  by (simp add: NUM_BANDS_def new_Uint8Array_def numeral_eq_Suc)

lemma customEqPayload_bytes:
  "customEqPayload st =
     [0, toUint8 (bandGains st) 0, toUint8 (bandQs st) 0,
      1, toUint8 (bandGains st) 1, toUint8 (bandQs st) 1,
      2, toUint8 (bandGains st) 2, toUint8 (bandQs st) 2,
      3, toUint8 (bandGains st) 3, toUint8 (bandQs st) 3,
      4, toUint8 (bandGains st) 4, toUint8 (bandQs st) 4,
      5, toUint8 (bandGains st) 5, toUint8 (bandQs st) 5,
      6, toUint8 (bandGains st) 6, toUint8 (bandQs st) 6,
      7, toUint8 (bandGains st) 7, toUint8 (bandQs st) 7]"
  unfolding customEqPayload_def upt_NUM_BANDS new_Uint8Array_24
  by simp

text \<open>The protocol description's packet for all bands at 0 dB with the default Q.\<close>

lemma sendCustomEQ_flat:
  "sendCustomEQ initial_eq =
     [0x51, 0x58, 0x57, 0x20, 0x03, 0x18,
      0x00, 0x78, 0x07, 0x01, 0x78, 0x07, 0x02, 0x78, 0x07, 0x03, 0x78, 0x07,
      0x04, 0x78, 0x07, 0x05, 0x78, 0x07, 0x06, 0x78, 0x07, 0x07, 0x78, 0x07]"
  by (simp add: sendCustomEQ_def buildPacket_Some customEqPayload_bytes initial_eq_def
      toUint8_def NUM_BANDS_def GAIN_OFFSET_def DEFAULT_Q_def CMD_CUSTOM_EQ_def TYPE_NOTIFY_def)

lemma encodeGain_6: "encodeGain 6 = 180"
  by code_simp

lemma encodeQ_07: "encodeQ 0.7 = 7"
  by code_simp

lemma encodeQ_07_double: "encodeQ (double_of 0.7) = 7"
  by code_simp

lemma less_8_cases:
  "i < 8 \<Longrightarrow> i = 0 \<or> i = 1 \<or> i = 2 \<or> i = 3 \<or> i = 4 \<or> i = 5 \<or> i = 6 \<or> i = (7::nat)"
  by arith

text \<open>
  Claim C5. The custom-EQ payload has exactly 24 bytes whatever the band state is; band
  \<open>i\<close> occupies the three bytes from offset \<open>i * 3\<close>: the index \<open>i\<close>, the stored gain and
  the stored Q, so the payload is a function of the band state alone. After
  \<^verbatim>\<open>setBand(0, 6.0, 0.7)\<close> on a state of 8 bands the payload begins with 00 B4 07, for
  the real 0.7 and for the double that the literal denotes.
\<close>

theorem customEqPayload_layout:
  "length (customEqPayload st) = 24
   \<and> (\<forall>i<8. customEqPayload st ! (i * 3) = of_nat i
             \<and> customEqPayload st ! (i * 3 + 1) = toUint8 (bandGains st) i
             \<and> customEqPayload st ! (i * 3 + 2) = toUint8 (bandQs st) i)
   \<and> (length (bandGains st) = 8 \<and> length (bandQs st) = 8 \<longrightarrow>
        (\<exists>st'. setBand 0 6 0.7 st = Inr st'
               \<and> take 3 (customEqPayload st') = [0x00, 0xB4, 0x07])
        \<and> (\<exists>st'. setBand 0 6 (double_of 0.7) st = Inr st'
               \<and> take 3 (customEqPayload st') = [0x00, 0xB4, 0x07]))"
proof (intro conjI allI impI)
  show "length (customEqPayload st) = 24"
    by (simp add: customEqPayload_bytes)
next
  fix i :: nat
  assume "i < 8"
  then have c: "i = 0 \<or> i = 1 \<or> i = 2 \<or> i = 3 \<or> i = 4 \<or> i = 5 \<or> i = 6 \<or> i = 7"
    by (rule less_8_cases)
  from c show "customEqPayload st ! (i * 3) = of_nat i"
    by (elim disjE) (simp_all add: customEqPayload_bytes)
  from c show "customEqPayload st ! (i * 3 + 1) = toUint8 (bandGains st) i"
    by (elim disjE) (simp_all add: customEqPayload_bytes)
  from c show "customEqPayload st ! (i * 3 + 2) = toUint8 (bandQs st) i"
    by (elim disjE) (simp_all add: customEqPayload_bytes)
next
  assume len: "length (bandGains st) = 8 \<and> length (bandQs st) = 8"
  define st' where
    "st' = st\<lparr>bandGains := (bandGains st)[0 := 180], bandQs := (bandQs st)[0 := 7]\<rparr>"
  have "setBand 0 6 0.7 st = Inr st'"
    by (simp add: setBand_def st'_def encodeGain_6 encodeQ_07)
  moreover have "take 3 (customEqPayload st') = [0x00, 0xB4, 0x07]"
    using len by (simp add: customEqPayload_bytes st'_def toUint8_def)
  ultimately show "\<exists>st'. setBand 0 6 0.7 st = Inr st'
      \<and> take 3 (customEqPayload st') = [0x00, 0xB4, 0x07]"
    by blast
next
  assume len: "length (bandGains st) = 8 \<and> length (bandQs st) = 8"
  define st' where
    "st' = st\<lparr>bandGains := (bandGains st)[0 := 180], bandQs := (bandQs st)[0 := 7]\<rparr>"
  have "setBand 0 6 (double_of 0.7) st = Inr st'"
    by (simp add: setBand_def st'_def encodeGain_6 encodeQ_07_double)
  moreover have "take 3 (customEqPayload st') = [0x00, 0xB4, 0x07]"
    using len by (simp add: customEqPayload_bytes st'_def toUint8_def)
  ultimately show "\<exists>st'. setBand 0 6 (double_of 0.7) st = Inr st'
      \<and> take 3 (customEqPayload st') = [0x00, 0xB4, 0x07]"
    by blast
qed

theorem customEqPayload_layout_witness:
  "length (customEqPayload initial_eq) = 24
   \<and> (7::nat) < 8
   \<and> customEqPayload initial_eq ! (7 * 3) = 7
   \<and> customEqPayload initial_eq ! (7 * 3 + 1) = 120
   \<and> customEqPayload initial_eq ! (7 * 3 + 2) = 7
   \<and> length (bandGains initial_eq) = 8 \<and> length (bandQs initial_eq) = 8
   \<and> (\<exists>st'. setBand 0 6 0.7 initial_eq = Inr st'
               \<and> take 3 (customEqPayload st') = [0x00, 0xB4, 0x07])
   \<and> (\<exists>st'. setBand 0 6 (double_of 0.7) initial_eq = Inr st'
               \<and> take 3 (customEqPayload st') = [0x00, 0xB4, 0x07])"
proof -
  note t = customEqPayload_layout [of initial_eq]
  have l: "length (bandGains initial_eq) = 8 \<and> length (bandQs initial_eq) = 8"
    by (simp add: initial_eq_def NUM_BANDS_def)
  have g: "toUint8 (bandGains initial_eq) 7 = 120" "toUint8 (bandQs initial_eq) 7 = 7"
    by (simp_all add: initial_eq_def NUM_BANDS_def toUint8_def GAIN_OFFSET_def DEFAULT_Q_def)
  have s: "(7::nat) < 8"
    by simp
  from t have a: "length (customEqPayload initial_eq) = 24"
    by blast
  from t s have "customEqPayload initial_eq ! (7 * 3) = of_nat 7
      \<and> customEqPayload initial_eq ! (7 * 3 + 1) = toUint8 (bandGains initial_eq) 7
      \<and> customEqPayload initial_eq ! (7 * 3 + 2) = toUint8 (bandQs initial_eq) 7"
    by blast
  then have b: "customEqPayload initial_eq ! (7 * 3) = 7
      \<and> customEqPayload initial_eq ! (7 * 3 + 1) = 120
      \<and> customEqPayload initial_eq ! (7 * 3 + 2) = 7"
    by (simp add: g)
  from t l have c: "\<exists>st'. setBand 0 6 0.7 initial_eq = Inr st'
               \<and> take 3 (customEqPayload st') = [0x00, 0xB4, 0x07]"
    by blast
  from t l have d: "\<exists>st'. setBand 0 6 (double_of 0.7) initial_eq = Inr st'
               \<and> take 3 (customEqPayload st') = [0x00, 0xB4, 0x07]"
    by blast
  from a s b l c d show ?thesis
    by blast
qed

subsection \<open>Device-info parser\<close>

lemma name_loop_valid: "fst (name_loop bs acc) = list_all printable bs"
  by (induction bs arbitrary: acc) (auto simp add: printable_def not_less)

lemma name_loop_name:
  "list_all printable bs \<Longrightarrow> snd (name_loop bs acc) = acc @ map fromCharCode bs"
  by (induction bs arbitrary: acc) (auto simp add: printable_def not_less)

lemma length_slice_list:
  "b \<le> length xs \<Longrightarrow> length (slice_list xs a b) = b - a"
  by (simp add: slice_list_def)

lemma name_check:
  assumes "length bs = n"
  shows "(case name_loop bs [] of
            (valid, name) \<Rightarrow> if valid \<and> length name = n then name else r)
         = (if list_all printable bs then map fromCharCode bs else r)"
proof (cases "list_all printable bs")
  case True
  then have "name_loop bs [] = (True, map fromCharCode bs)"
    using name_loop_valid [of bs "[]"] name_loop_name [of bs "[]"]
    by (simp add: prod_eq_iff)
  then show ?thesis
    using True assms by simp
next
  case False
  then have "fst (name_loop bs []) = False"
    by (simp add: name_loop_valid)
  then show ?thesis
    using False by (simp add: case_prod_beta)
qed

lemma scan_step:
  assumes "5 \<le> i"
  shows "scan_name payload i =
     (if accepts payload i
      then map fromCharCode (slice_list payload (i + 1) (i + 1 + unat (payload ! i)))
      else scan_name payload (i - 1))"
proof (cases "0 < unat (payload ! i) \<and> unat (payload ! i) < 32
              \<and> i + 1 + unat (payload ! i) \<le> length payload")
  case False
  then show ?thesis
    using assms by (subst scan_name.simps) (auto simp add: accepts_def Let_def)
next
  case True
  then have "length (slice_list payload (i + 1) (i + 1 + unat (payload ! i))) = unat (payload ! i)"
    by (simp add: length_slice_list)
  note name_check [OF this]
  then show ?thesis
    using assms True by (subst scan_name.simps) (simp add: accepts_def Let_def)
qed

lemma scan_name_below: "i < 5 \<Longrightarrow> scan_name payload i = []"
  by (subst scan_name.simps) simp

lemma scan_name_find:
  "scan_name payload i =
     (case find (accepts payload) (rev [5..<Suc i]) of
        None \<Rightarrow> []
      | Some k \<Rightarrow> map fromCharCode (slice_list payload (k + 1) (k + 1 + unat (payload ! k))))"
proof (induction i)
  case 0
  then show ?case by (simp add: scan_name_below)
next
  case (Suc i)
  show ?case
  proof (cases "5 \<le> Suc i")
    case False
    then show ?thesis by (simp add: scan_name_below)
  next
    case True
    then show ?thesis
      using Suc by (simp add: scan_step [OF True])
  qed
qed

lemma scan_name_spec:
  assumes "5 \<le> length payload"
  shows "scan_name payload (length payload - 1) = spec_name payload"
proof -
  have "Suc (length payload - 1) = length payload"
    using assms by simp
  then show ?thesis
    unfolding spec_name_def scan_name_find by (simp only:)
qed

lemma scan_name_rightmost:
  "5 \<le> k \<Longrightarrow> k \<le> i \<Longrightarrow> accepts payload k \<Longrightarrow>
   (\<forall>j. k < j \<and> j \<le> i \<longrightarrow> \<not> accepts payload j) \<Longrightarrow>
   scan_name payload i = map fromCharCode (slice_list payload (k + 1) (k + 1 + unat (payload ! k)))"
proof (induction i)
  case 0
  then show ?case by simp
next
  case (Suc i)
  show ?case
  proof (cases "k = Suc i")
    case True
    then show ?thesis
      using Suc.prems by (simp add: scan_step)
  next
    case False
    then have "k \<le> i" "\<not> accepts payload (Suc i)" "5 \<le> Suc i"
      using Suc.prems by auto
    then show ?thesis
      using Suc by (simp add: scan_step)
  qed
qed

lemma scan_name_none:
  "(\<forall>j. 5 \<le> j \<and> j \<le> i \<longrightarrow> \<not> accepts payload j) \<Longrightarrow> scan_name payload i = []"
proof (induction i)
  case 0
  then show ?case by (simp add: scan_name_below)
next
  case (Suc i)
  then show ?case
    by (cases "5 \<le> Suc i") (simp_all add: scan_step scan_name_below)
qed


text \<open>
  Claim C3. For a device-info payload of at least 5 bytes the name is found by scanning
  the index \<open>i\<close> from the last byte down to 5: the first \<open>i\<close> met (the rightmost one) whose
  byte is a length between 1 and 31 that fits in the payload and is followed by that many
  bytes in 0x20..0x7e is accepted, and those bytes are the name; when no index is accepted
  the name is empty. The payload 01 03 64 64 00 05 48 65 6c 6c 6f gives 100, 100 and
  ``Hello''.
\<close>

theorem parse_info_name:
  assumes "5 \<le> length payload"
  shows "parse_info payload
           = Inr \<lparr>batteryLeft = payload ! 2, batteryRight = payload ! 3,
                  deviceName = scan_name payload (length payload - 1)\<rparr>
    \<and> scan_name payload (length payload - 1) = spec_name payload
    \<and> (\<forall>i. 5 \<le> i \<and> i < length payload \<and> accepts payload i
            \<and> (\<forall>j. i < j \<and> j < length payload \<longrightarrow> \<not> accepts payload j) \<longrightarrow>
          scan_name payload (length payload - 1)
            = map fromCharCode (slice_list payload (i + 1) (i + 1 + unat (payload ! i))))
    \<and> ((\<forall>i. 5 \<le> i \<and> i < length payload \<longrightarrow> \<not> accepts payload i) \<longrightarrow>
          scan_name payload (length payload - 1) = [])
    \<and> parse_info [0x01, 0x03, 0x64, 0x64, 0x00, 0x05, 0x48, 0x65, 0x6c, 0x6c, 0x6f]
          = Inr \<lparr>batteryLeft = 100, batteryRight = 100, deviceName = ''Hello''\<rparr>"
proof (intro conjI allI impI)
  show "parse_info payload
           = Inr \<lparr>batteryLeft = payload ! 2, batteryRight = payload ! 3,
                  deviceName = scan_name payload (length payload - 1)\<rparr>"
    using assms by (simp add: parse_info_def)
next
  show "scan_name payload (length payload - 1) = spec_name payload"
    using assms by (rule scan_name_spec)
next
  fix i
  assume h: "5 \<le> i \<and> i < length payload \<and> accepts payload i
            \<and> (\<forall>j. i < j \<and> j < length payload \<longrightarrow> \<not> accepts payload j)"
  then have "\<forall>j. i < j \<and> j \<le> length payload - 1 \<longrightarrow> \<not> accepts payload j"
    by auto
  moreover have "i \<le> length payload - 1"
    using h by auto
  ultimately show "scan_name payload (length payload - 1)
            = map fromCharCode (slice_list payload (i + 1) (i + 1 + unat (payload ! i)))"
    using h by (intro scan_name_rightmost) auto
next
  assume "\<forall>i. 5 \<le> i \<and> i < length payload \<longrightarrow> \<not> accepts payload i"
  then have "\<forall>j. 5 \<le> j \<and> j \<le> length payload - 1 \<longrightarrow> \<not> accepts payload j"
    using assms by auto
  then show "scan_name payload (length payload - 1) = []"
    by (rule scan_name_none)
next
  show "parse_info [0x01, 0x03, 0x64, 0x64, 0x00, 0x05, 0x48, 0x65, 0x6c, 0x6c, 0x6f]
          = Inr \<lparr>batteryLeft = 100, batteryRight = 100, deviceName = ''Hello''\<rparr>"
    by code_simp
qed

theorem parse_info_name_witness:
  "5 \<le> length [0x01, 0x03, 0x64, 0x64, 0x00, 0x02, 0x48, 0x69, 0x01, 0x07 :: byte]
   \<and> accepts [0x01, 0x03, 0x64, 0x64, 0x00, 0x02, 0x48, 0x69, 0x01, 0x07] 5
   \<and> \<not> accepts [0x01, 0x03, 0x64, 0x64, 0x00, 0x02, 0x48, 0x69, 0x01, 0x07] 6
   \<and> \<not> accepts [0x01, 0x03, 0x64, 0x64, 0x00, 0x02, 0x48, 0x69, 0x01, 0x07] 7
   \<and> \<not> accepts [0x01, 0x03, 0x64, 0x64, 0x00, 0x02, 0x48, 0x69, 0x01, 0x07] 8
   \<and> \<not> accepts [0x01, 0x03, 0x64, 0x64, 0x00, 0x02, 0x48, 0x69, 0x01, 0x07] 9
   \<and> parse_info [0x01, 0x03, 0x64, 0x64, 0x00, 0x02, 0x48, 0x69, 0x01, 0x07]
        = Inr \<lparr>batteryLeft = 100, batteryRight = 100, deviceName = ''Hi''\<rparr>
   \<and> 5 \<le> length [0x01, 0x03, 0x50, 0x4b, 0x00, 0x09, 0x41 :: byte]
   \<and> \<not> accepts [0x01, 0x03, 0x50, 0x4b, 0x00, 0x09, 0x41] 5
   \<and> \<not> accepts [0x01, 0x03, 0x50, 0x4b, 0x00, 0x09, 0x41] 6
   \<and> parse_info [0x01, 0x03, 0x50, 0x4b, 0x00, 0x09, 0x41]
        = Inr \<lparr>batteryLeft = 0x50, batteryRight = 0x4b, deviceName = []\<rparr>"
proof -
  define p :: "byte list" where "p = [0x01, 0x03, 0x64, 0x64, 0x00, 0x02, 0x48, 0x69, 0x01, 0x07]"
  define q :: "byte list" where "q = [0x01, 0x03, 0x50, 0x4b, 0x00, 0x09, 0x41]"
  have lenq: "length q = 7"
    by (simp add: q_def)
  have q5: "\<not> accepts q 5" and q6: "\<not> accepts q 6"
    unfolding q_def by code_simp+
  have none: "\<forall>i. 5 \<le> i \<and> i < length q \<longrightarrow> \<not> accepts q i"
  proof (intro allI impI)
    fix i :: nat
    assume "5 \<le> i \<and> i < length q"
    then have "i = 5 \<or> i = 6"
      using lenq by arith
    then show "\<not> accepts q i"
      using q5 q6 by blast
  qed
  have lq: "5 \<le> length q"
    by (simp add: lenq)
  have bq: "q ! 2 = 0x50" "q ! 3 = 0x4b"
    by (simp_all add: q_def)
  from parse_info_name [OF lq] have
    "parse_info q = Inr \<lparr>batteryLeft = q ! 2, batteryRight = q ! 3,
        deviceName = scan_name q (length q - 1)\<rparr>"
    and "(\<forall>i. 5 \<le> i \<and> i < length q \<longrightarrow> \<not> accepts q i) \<longrightarrow>
          scan_name q (length q - 1) = []"
    by blast+
  then have rq: "parse_info q = Inr \<lparr>batteryLeft = 0x50, batteryRight = 0x4b, deviceName = []\<rparr>"
    using none bq by simp
  have len: "length p = 10"
    by (simp add: p_def)
  have a5: "accepts p 5"
    unfolding p_def by code_simp
  have a6: "\<not> accepts p 6" and a7: "\<not> accepts p 7" and a8: "\<not> accepts p 8" and a9: "\<not> accepts p 9"
    unfolding p_def by code_simp+
  have right: "\<forall>j. 5 < j \<and> j < length p \<longrightarrow> \<not> accepts p j"
  proof (intro allI impI)
    fix j :: nat
    assume "5 < j \<and> j < length p"
    then have "j = 6 \<or> j = 7 \<or> j = 8 \<or> j = 9"
      using len by arith
    then show "\<not> accepts p j"
      using a6 a7 a8 a9 by blast
  qed
  have l5: "5 \<le> length p"
    by (simp add: len)
  have nm: "map fromCharCode (slice_list p (5 + 1) (5 + 1 + unat (p ! 5))) = ''Hi''"
    unfolding p_def by code_simp
  have b: "p ! 2 = 100" "p ! 3 = 100"
    by (simp_all add: p_def)
  from parse_info_name [OF l5] have
    "parse_info p = Inr \<lparr>batteryLeft = p ! 2, batteryRight = p ! 3,
        deviceName = scan_name p (length p - 1)\<rparr>"
    and "\<forall>i. 5 \<le> i \<and> i < length p \<and> accepts p i
            \<and> (\<forall>j. i < j \<and> j < length p \<longrightarrow> \<not> accepts p j) \<longrightarrow>
          scan_name p (length p - 1)
            = map fromCharCode (slice_list p (i + 1) (i + 1 + unat (p ! i)))"
    by blast+
  then have "parse_info p = Inr \<lparr>batteryLeft = 100, batteryRight = 100, deviceName = ''Hi''\<rparr>"
    using a5 right l5 len nm b by auto
  then show ?thesis
    using l5 a5 a6 a7 a8 a9 lq q5 q6 rq unfolding p_def q_def by blast
qed

text \<open>
  Claim C8. The device-info parser takes its early return, the format error of the
  specification, exactly when the payload has fewer than 5 bytes; the page is then left as
  it was but for the log line. Otherwise the parser returns the battery levels
  \<open>payload[2]\<close> and \<open>payload[3]\<close>.
\<close>

theorem parse_info_short:
  "(parse_info payload = Inl PayloadTooShort \<longleftrightarrow> length payload < 5)
   \<and> (length payload < 5 \<longrightarrow>
        parseDeviceInfo payload pg
          = pg\<lparr>console := console pg @ [Report (DeviceInfoNotification (Inl PayloadTooShort))]\<rparr>)
   \<and> (5 \<le> length payload \<longrightarrow>
        (\<exists>d. parse_info payload = Inr d
             \<and> batteryLeft d = payload ! 2 \<and> batteryRight d = payload ! 3))"
  by (simp add: parse_info_def parseDeviceInfo_def log_line_def)

theorem parse_info_short_witness:
  "length [0x01, 0x03 :: byte] < 5
   \<and> parse_info [0x01, 0x03] = Inl PayloadTooShort
   \<and> parseDeviceInfo [0x01, 0x03] blank_page
        = blank_page\<lparr>console := [Report (DeviceInfoNotification (Inl PayloadTooShort))]\<rparr>
   \<and> 5 \<le> length [0x01, 0x03, 0x50, 0x4b, 0x00 :: byte]
   \<and> (\<exists>d. parse_info [0x01, 0x03, 0x50, 0x4b, 0x00] = Inr d
          \<and> batteryLeft d = 0x50 \<and> batteryRight d = 0x4b)"
proof -
  have s: "length [0x01, 0x03 :: byte] < 5"
    by simp
  have l: "5 \<le> length [0x01, 0x03, 0x50, 0x4b, 0x00 :: byte]"
    by simp
  note t1 = parse_info_short [of "[0x01, 0x03]" blank_page]
  note t2 = parse_info_short [of "[0x01, 0x03, 0x50, 0x4b, 0x00]" blank_page]
  from t1 s have a: "parse_info [0x01, 0x03] = Inl PayloadTooShort"
    by blast
  from t1 s have "parseDeviceInfo [0x01, 0x03] blank_page
      = blank_page\<lparr>console := console blank_page @ [Report (DeviceInfoNotification (Inl PayloadTooShort))]\<rparr>"
    by blast
  then have b: "parseDeviceInfo [0x01, 0x03] blank_page
        = blank_page\<lparr>console := [Report (DeviceInfoNotification (Inl PayloadTooShort))]\<rparr>"
    by (simp add: blank_page_def)
  from t2 l have "\<exists>d. parse_info [0x01, 0x03, 0x50, 0x4b, 0x00] = Inr d
      \<and> batteryLeft d = [0x01, 0x03, 0x50, 0x4b, 0x00] ! 2
      \<and> batteryRight d = [0x01, 0x03, 0x50, 0x4b, 0x00] ! 3"
    by blast
  then have c: "\<exists>d. parse_info [0x01, 0x03, 0x50, 0x4b, 0x00] = Inr d
          \<and> batteryLeft d = 0x50 \<and> batteryRight d = 0x4b"
    by simp
  from s a b l c show ?thesis
    by blast
qed

subsection \<open>Notification handler\<close>

lemma take_3_nth: "3 \<le> length v \<Longrightarrow> take 3 v = [v ! 0, v ! 1, v ! 2]"
  by (cases v; cases "tl v"; cases "tl (tl v)") auto

lemma prefix_check:
  "5 \<le> length v \<Longrightarrow>
     (v ! 0 \<noteq> 0x51 \<or> v ! 1 \<noteq> 0x58 \<or> v ! 2 \<noteq> 0x57) = (take 3 v \<noteq> [0x51, 0x58, 0x57])"
  by (simp add: take_3_nth)

lemma decode_no_prefix:
  "length v < 5 \<or> take 3 v \<noteq> [0x51, 0x58, 0x57] \<Longrightarrow> decode v = Unrecognized None"
  using prefix_check [of v] by (cases "length v < 5") (auto simp add: decode_def)

lemma decode_prefixed:
  assumes "5 \<le> length v" "take 3 v = [0x51, 0x58, 0x57]"
  shows "decode v =
     (if v ! 3 = 0x27 \<and> v ! 4 = 0x02 then DeviceInfoNotification (parse_info (drop 5 v))
      else if v ! 3 = 0x10 then PresetConfirmed
      else if v ! 3 = 0x20 then CustomEqConfirmed
      else Unrecognized (Some (v ! 3)))"
  using assms prefix_check [of v]
  by (simp add: decode_def Let_def CMD_DEVICE_INFO_def CMD_SELECT_EQ_def CMD_CUSTOM_EQ_def)

lemma parseDeviceInfo_console:
  "console (parseDeviceInfo payload pg)
     = console pg @ [Report (DeviceInfoNotification (parse_info payload))]"
  by (simp add: parseDeviceInfo_def log_line_def split: sum.splits)

lemma decode_DeviceInfoNotification:
  "decode v = DeviceInfoNotification r \<Longrightarrow> r = parse_info (drop 5 v)"
  by (auto simp add: decode_def Let_def split: if_splits)

text \<open>What the handler logs: the bytes received, then the event of the dispatch.\<close>

lemma onNotification_console:
  "console (onNotification v pg) = console pg @ [RX v, Report (decode v)]"
proof (cases "decode v")
  case (DeviceInfoNotification r)
  then show ?thesis
    using decode_DeviceInfoNotification [OF DeviceInfoNotification]
    by (simp add: onNotification_def parseDeviceInfo_console log_line_def)
qed (simp_all add: onNotification_def log_line_def)

text \<open>
  The device-info response of the protocol description, with the name ``Hello'' after the
  five battery bytes, received on a blank page.
\<close>

lemma onNotification_hello:
  "onNotification
     [0x51, 0x58, 0x57, 0x27, 0x02, 0x01, 0x03, 0x64, 0x64, 0x00, 0x05, 0x48, 0x65, 0x6c, 0x6c, 0x6f]
     blank_page
   = \<lparr>console =
        [RX [0x51, 0x58, 0x57, 0x27, 0x02,
             0x01, 0x03, 0x64, 0x64, 0x00, 0x05, 0x48, 0x65, 0x6c, 0x6c, 0x6f],
         Report (DeviceInfoNotification
           (Inr \<lparr>batteryLeft = 100, batteryRight = 100, deviceName = ''Hello''\<rparr>))],
      bat_left = ''100%'', bat_right = ''100%'', device_name = ''Hello'',
      info_card_hidden = False\<rparr>"
  by code_simp

text \<open>
  Claim C2. The dispatch is a total function of the bytes received. A sequence of fewer
  than 5 bytes, or one that does not start with 0x51 0x58 0x57, is unrecognized; so is a
  well-prefixed one whose command byte is none of 0x10, 0x20 and 0x27, and the result
  carries that command code. The bytes 51 58 57 99 01 00 give \<open>Unrecognized (Some 0x99)\<close>.
\<close>

theorem decode_unrecognized:
  "(length v < 5 \<or> take 3 v \<noteq> [0x51, 0x58, 0x57] \<longrightarrow> decode v = Unrecognized None)
   \<and> (5 \<le> length v \<and> take 3 v = [0x51, 0x58, 0x57] \<and> v ! 3 \<notin> {0x10, 0x20, 0x27} \<longrightarrow>
        decode v = Unrecognized (Some (v ! 3)))
   \<and> decode [0x51, 0x58, 0x57, 0x99, 0x01, 0x00] = Unrecognized (Some 0x99)"
proof (intro conjI impI)
  assume "length v < 5 \<or> take 3 v \<noteq> [0x51, 0x58, 0x57]"
  then show "decode v = Unrecognized None"
    by (rule decode_no_prefix)
next
  assume "5 \<le> length v \<and> take 3 v = [0x51, 0x58, 0x57] \<and> v ! 3 \<notin> {0x10, 0x20, 0x27}"
  then show "decode v = Unrecognized (Some (v ! 3))"
    by (simp add: decode_prefixed)
next
  show "decode [0x51, 0x58, 0x57, 0x99, 0x01, 0x00] = Unrecognized (Some 0x99)"
    by (simp add: decode_prefixed)
qed

theorem decode_unrecognized_witness:
  "length [0x51, 0x58 :: byte] < 5
   \<and> decode [0x51, 0x58] = Unrecognized None
   \<and> take 3 [0x51, 0x58, 0x00, 0x10, 0x01, 0x00 :: byte] \<noteq> [0x51, 0x58, 0x57]
   \<and> decode [0x51, 0x58, 0x00, 0x10, 0x01, 0x00] = Unrecognized None
   \<and> 5 \<le> length [0x51, 0x58, 0x57, 0x42, 0x03 :: byte]
   \<and> take 3 [0x51, 0x58, 0x57, 0x42, 0x03 :: byte] = [0x51, 0x58, 0x57]
   \<and> [0x51, 0x58, 0x57, 0x42, 0x03 :: byte] ! 3 \<notin> {0x10, 0x20, 0x27}
   \<and> decode [0x51, 0x58, 0x57, 0x42, 0x03] = Unrecognized (Some 0x42)"
proof -
  have s: "length [0x51, 0x58 :: byte] < 5"
    by simp
  have w: "take 3 [0x51, 0x58, 0x00, 0x10, 0x01, 0x00 :: byte] \<noteq> [0x51, 0x58, 0x57]"
    by simp
  have u: "5 \<le> length [0x51, 0x58, 0x57, 0x42, 0x03 :: byte]"
    "take 3 [0x51, 0x58, 0x57, 0x42, 0x03 :: byte] = [0x51, 0x58, 0x57]"
    "[0x51, 0x58, 0x57, 0x42, 0x03 :: byte] ! 3 \<notin> {0x10, 0x20, 0x27}"
    by simp_all
  have 1: "decode [0x51, 0x58] = Unrecognized None"
    using decode_unrecognized [of "[0x51, 0x58]"] s by blast
  have 2: "decode [0x51, 0x58, 0x00, 0x10, 0x01, 0x00] = Unrecognized None"
    using decode_unrecognized [of "[0x51, 0x58, 0x00, 0x10, 0x01, 0x00]"] w by blast
  have "decode [0x51, 0x58, 0x57, 0x42, 0x03]
          = Unrecognized (Some ([0x51, 0x58, 0x57, 0x42, 0x03] ! 3))"
    using decode_unrecognized [of "[0x51, 0x58, 0x57, 0x42, 0x03]"] u by blast
  then have 3: "decode [0x51, 0x58, 0x57, 0x42, 0x03] = Unrecognized (Some 0x42)"
    by simp
  from s w u 1 2 3 show ?thesis
    by blast
qed

text \<open>
  Claim C10. A frame of at least 5 bytes with the QXW prefix and the command 0x27 whose
  byte 4 is not the sub-code 0x02 is reported as the unknown command 0x27: the handler
  logs the received bytes and that report, and does nothing else to the page.
\<close>

theorem decode_device_info_subcode:
  assumes "5 \<le> length v" and "take 3 v = [0x51, 0x58, 0x57]"
    and "v ! 3 = 0x27" and "v ! 4 \<noteq> 0x02"
  shows "decode v = Unrecognized (Some 0x27)
         \<and> onNotification v pg
             = log_line (Report (Unrecognized (Some 0x27))) (log_line (RX v) pg)"
proof -
  have d: "decode v = Unrecognized (Some 0x27)"
    using assms by (simp add: decode_prefixed)
  then show ?thesis
    by (simp add: onNotification_def)
qed

theorem decode_device_info_subcode_witness:
  "5 \<le> length [0x51, 0x58, 0x57, 0x27, 0x01, 0x00 :: byte]
   \<and> take 3 [0x51, 0x58, 0x57, 0x27, 0x01, 0x00 :: byte] = [0x51, 0x58, 0x57]
   \<and> [0x51, 0x58, 0x57, 0x27, 0x01, 0x00 :: byte] ! 3 = 0x27
   \<and> [0x51, 0x58, 0x57, 0x27, 0x01, 0x00 :: byte] ! 4 \<noteq> 0x02
   \<and> decode [0x51, 0x58, 0x57, 0x27, 0x01, 0x00] = Unrecognized (Some 0x27)
   \<and> onNotification [0x51, 0x58, 0x57, 0x27, 0x01, 0x00] blank_page
        = blank_page\<lparr>console := [RX [0x51, 0x58, 0x57, 0x27, 0x01, 0x00],
                                Report (Unrecognized (Some 0x27))]\<rparr>"
proof -
  have h: "5 \<le> length [0x51, 0x58, 0x57, 0x27, 0x01, 0x00 :: byte]"
    "take 3 [0x51, 0x58, 0x57, 0x27, 0x01, 0x00 :: byte] = [0x51, 0x58, 0x57]"
    "[0x51, 0x58, 0x57, 0x27, 0x01, 0x00 :: byte] ! 3 = 0x27"
    "[0x51, 0x58, 0x57, 0x27, 0x01, 0x00 :: byte] ! 4 \<noteq> 0x02"
    by simp_all
  note t = decode_device_info_subcode [OF h, of blank_page]
  have "log_line (Report (Unrecognized (Some 0x27)))
          (log_line (RX [0x51, 0x58, 0x57, 0x27, 0x01, 0x00]) blank_page)
        = blank_page\<lparr>console := [RX [0x51, 0x58, 0x57, 0x27, 0x01, 0x00],
                                Report (Unrecognized (Some 0x27))]\<rparr>"
    by (simp add: log_line_def blank_page_def)
  with t h show ?thesis
    by simp
qed

subsection \<open>Decoding a built packet\<close>

text \<open>
  Claim C6, as amended. For every command byte, type byte and payload of at most 255
  bytes, the frame that \<^verbatim>\<open>buildPacket\<close> returns holds the three of them (the command at
  offset 3, the type at offset 4, the payload length at offset 5 and the payload from
  offset 6), and the handler's dispatch of that frame depends on the command and the type
  only: a preset confirmation for 0x10, a custom-EQ confirmation for 0x20, the
  device-info parser applied to the length byte followed by the payload for 0x27 with
  type 0x02, and the unknown command otherwise. The dispatch does not return the type or
  the payload.
\<close>

theorem decode_buildPacket:
  assumes "length payload \<le> 255"
  shows "decode (buildPacket cmd type (Some payload)) =
           (if cmd = 0x27 \<and> type = 0x02
            then DeviceInfoNotification (parse_info (of_nat (length payload) # payload))
            else if cmd = 0x10 then PresetConfirmed
            else if cmd = 0x20 then CustomEqConfirmed
            else Unrecognized (Some cmd))
         \<and> buildPacket cmd type (Some payload) ! 3 = cmd
         \<and> buildPacket cmd type (Some payload) ! 4 = type
         \<and> unat (buildPacket cmd type (Some payload) ! 5) = length payload
         \<and> drop 6 (buildPacket cmd type (Some payload)) = payload"
proof -
  have "unat (of_nat (length payload) :: byte) = length payload"
    using assms by (simp add: unat_of_nat)
  then show ?thesis
    by (simp add: buildPacket_Some decode_prefixed)
qed

theorem decode_buildPacket_witness:
  "length [0x01, 0x03, 0x64, 0x64 :: byte] \<le> 255
   \<and> decode (buildPacket 0x27 0x02 (Some [0x01, 0x03, 0x64, 0x64]))
        = DeviceInfoNotification (parse_info [0x04, 0x01, 0x03, 0x64, 0x64])
   \<and> buildPacket 0x27 0x02 (Some [0x01, 0x03, 0x64, 0x64]) ! 3 = 0x27
   \<and> buildPacket 0x27 0x02 (Some [0x01, 0x03, 0x64, 0x64]) ! 4 = 0x02
   \<and> unat (buildPacket 0x27 0x02 (Some [0x01, 0x03, 0x64, 0x64]) ! 5) = 4
   \<and> drop 6 (buildPacket 0x27 0x02 (Some [0x01, 0x03, 0x64, 0x64])) = [0x01, 0x03, 0x64, 0x64]"
  using decode_buildPacket [where payload = "[0x01, 0x03, 0x64, 0x64]" and cmd = "0x27" and type = "0x02"]
  by simp

text \<open>
  Two frames with different types and payloads decode to the same event, so the type and
  the payload cannot be read off the result of the dispatch.
\<close>

theorem decode_buildPacket_counterexample:
  "decode (buildPacket 0x10 0x01 (Some [0x01])) = PresetConfirmed
   \<and> decode (buildPacket 0x10 0x03 (Some [0x02, 0x07])) = PresetConfirmed"
  by (simp add: buildPacket_Some decode_prefixed)

end
